theory Spec2Isabelle
  imports Complex_Main
begin

section \<open>Numbers\<close>

text \<open>
  A JavaScript number is an IEEE-754 double. The finite ones are taken as exact reals
  (rounding, overflow and the sign of zero are left out); the three values that are not
  reals are kept, since a division by a zero viewport extent produces them and every
  later operation propagates them.
\<close>

datatype number = Fin real | PosInf | NegInf | NaN

datatype js_error = TypeError | RangeError

fun num_neg :: "number \<Rightarrow> number" where
  "num_neg (Fin a) = Fin (- a)"
| "num_neg PosInf = NegInf"
| "num_neg NegInf = PosInf"
| "num_neg NaN = NaN"

text \<open>An infinity with the sign of a finite, non-zero factor (zero gives NaN).\<close>

definition signed_inf :: "real \<Rightarrow> number" where
  "signed_inf a = (if a = 0 then NaN else if 0 < a then PosInf else NegInf)"

fun num_add :: "number \<Rightarrow> number \<Rightarrow> number" where
  "num_add (Fin a) (Fin b) = Fin (a + b)"
| "num_add NaN _ = NaN"
| "num_add _ NaN = NaN"
| "num_add PosInf NegInf = NaN"
| "num_add NegInf PosInf = NaN"
| "num_add PosInf _ = PosInf"
| "num_add NegInf _ = NegInf"
| "num_add (Fin a) PosInf = PosInf"
| "num_add (Fin a) NegInf = NegInf"

definition num_sub :: "number \<Rightarrow> number \<Rightarrow> number" where
  "num_sub a b = num_add a (num_neg b)"

fun num_mul :: "number \<Rightarrow> number \<Rightarrow> number" where
  "num_mul (Fin a) (Fin b) = Fin (a * b)"
| "num_mul NaN _ = NaN"
| "num_mul _ NaN = NaN"
| "num_mul (Fin a) PosInf = signed_inf a"
| "num_mul (Fin a) NegInf = signed_inf (- a)"
| "num_mul PosInf (Fin b) = signed_inf b"
| "num_mul NegInf (Fin b) = signed_inf (- b)"
| "num_mul PosInf PosInf = PosInf"
| "num_mul NegInf NegInf = PosInf"
| "num_mul PosInf NegInf = NegInf"
| "num_mul NegInf PosInf = NegInf"

text \<open>
  Division. The only divisors of the program are \<open>window.innerWidth\<close> and
  \<open>window.innerHeight\<close>, non-negative integers, so a zero divisor is \<open>+0\<close>.
\<close>

fun num_div :: "number \<Rightarrow> number \<Rightarrow> number" where
  "num_div (Fin a) (Fin b) = (if b = 0 then signed_inf a else Fin (a / b))"
| "num_div NaN _ = NaN"
| "num_div _ NaN = NaN"
| "num_div (Fin a) PosInf = Fin 0"
| "num_div (Fin a) NegInf = Fin 0"
| "num_div PosInf (Fin b) = (if 0 \<le> b then PosInf else NegInf)"
| "num_div NegInf (Fin b) = (if 0 \<le> b then NegInf else PosInf)"
| "num_div PosInf _ = NaN"
| "num_div NegInf _ = NaN"

section \<open>Cursor follower (the page script)\<close>

text \<open>
  The inline style of an element, as far as the cursor code writes it. \<open>left\<close> and
  \<open>top\<close> hold the number of the string \<open>`${v}px`\<close> (\<open>None\<close>: never written).
\<close>

record element =
  style_left :: "real option"
  style_top :: "real option"
  style_transform :: string
  style_backgroundColor :: string

text \<open>
  The variables of the \<open>DOMContentLoaded\<close> closure. \<open>cursorDot\<close> and
  \<open>cursorOutline\<close> are what \<open>document.getElementById\<close> returned (\<open>None\<close> for
  null); \<open>raf\<close> counts the \<open>animateCursor\<close> callbacks that
  \<open>requestAnimationFrame\<close> holds for the next frame; \<open>hover_bound\<close> says that the
  hover listeners of lines 37-49 were registered. Pointer coordinates of events are
  finite, and the follower only adds, subtracts and multiplies, so its numbers are reals.
\<close>

record cursor_state =
  mouseX :: real
  mouseY :: real
  outlineX :: real
  outlineY :: real
  cursorDot :: "element option"
  cursorOutline :: "element option"
  raf :: nat
  hover_bound :: bool

text \<open>
  A handler ends normally (\<open>None\<close>) or with an exception; what it wrote before the
  exception stays written, so the state is returned in both cases.
\<close>

type_synonym 'a outcome = "js_error option \<times> 'a"

definition window_mousemove :: "real \<Rightarrow> real \<Rightarrow> cursor_state \<Rightarrow> cursor_state outcome" where
  "window_mousemove clientX clientY st =
     (let st1 = st\<lparr>mouseX := clientX, mouseY := clientY\<rparr> in
      case cursorDot st1 of
        None \<Rightarrow> (Some TypeError, st1)
      | Some dot \<Rightarrow>
          (None, st1\<lparr>cursorDot :=
             Some (dot\<lparr>style_left := Some (mouseX st1), style_top := Some (mouseY st1)\<rparr>)\<rparr>))"

definition speed :: real where
  "speed = 0.5"

definition animateCursor :: "cursor_state \<Rightarrow> cursor_state outcome" where
  "animateCursor st =
     (let st1 = st\<lparr>outlineX := outlineX st + (mouseX st - outlineX st) * speed\<rparr>;
          st2 = st1\<lparr>outlineY := outlineY st1 + (mouseY st1 - outlineY st1) * speed\<rparr> in
      case cursorOutline st2 of
        None \<Rightarrow> (Some TypeError, st2)
      | Some outline \<Rightarrow>
          (None, st2\<lparr>cursorOutline :=
                   Some (outline\<lparr>style_left := Some (outlineX st2),
                                 style_top := Some (outlineY st2)\<rparr>),
                 raf := raf st2 + 1\<rparr>))"

definition interactiveElements_mouseenter :: "cursor_state \<Rightarrow> cursor_state outcome" where
  "interactiveElements_mouseenter st =
     (case cursorOutline st of
        None \<Rightarrow> (Some TypeError, st)
      | Some outline \<Rightarrow>
          (let st1 = st\<lparr>cursorOutline :=
                 Some (outline\<lparr>style_transform := ''translate(-50%, -50%) scale(1.5)'',
                               style_backgroundColor := ''rgba(255, 255, 255, 0.1)''\<rparr>)\<rparr> in
           case cursorDot st1 of
             None \<Rightarrow> (Some TypeError, st1)
           | Some dot \<Rightarrow>
               (None, st1\<lparr>cursorDot :=
                  Some (dot\<lparr>style_transform := ''translate(-50%, -50%) scale(0.5)''\<rparr>)\<rparr>)))"

definition interactiveElements_mouseleave :: "cursor_state \<Rightarrow> cursor_state outcome" where
  "interactiveElements_mouseleave st =
     (case cursorOutline st of
        None \<Rightarrow> (Some TypeError, st)
      | Some outline \<Rightarrow>
          (let st1 = st\<lparr>cursorOutline :=
                 Some (outline\<lparr>style_transform := ''translate(-50%, -50%) scale(1)'',
                               style_backgroundColor := ''transparent''\<rparr>)\<rparr> in
           case cursorDot st1 of
             None \<Rightarrow> (Some TypeError, st1)
           | Some dot \<Rightarrow>
               (None, st1\<lparr>cursorDot :=
                  Some (dot\<lparr>style_transform := ''translate(-50%, -50%) scale(1)''\<rparr>)\<rparr>)))"

text \<open>
  The cursor part of the \<open>DOMContentLoaded\<close> handler (lines 3-49): the variables start
  at 0, \<open>animateCursor()\<close> is called once, and the hover listeners are registered only
  if that call did not throw. The rest of the handler is left out: scroll reveal and
  anchor scrolling touch none of this state, and the theme toggle writes only the dot's
  background colour and the outline's border colour, which nothing here reads.
\<close>

definition initial_state :: "element option \<Rightarrow> element option \<Rightarrow> cursor_state" where
  "initial_state dot outline =
     \<lparr>mouseX = 0, mouseY = 0, outlineX = 0, outlineY = 0,
      cursorDot = dot, cursorOutline = outline, raf = 0, hover_bound = False\<rparr>"

definition DOMContentLoaded :: "element option \<Rightarrow> element option \<Rightarrow> cursor_state outcome" where
  "DOMContentLoaded dot outline =
     (case animateCursor (initial_state dot outline) of
        (Some e, st) \<Rightarrow> (Some e, st)
      | (None, st) \<Rightarrow> (None, st\<lparr>hover_bound := True\<rparr>))"

text \<open>
  The host's event loop. Each event runs its listeners to completion; an exception in a
  listener is reported and the loop goes on. A display refresh takes the callbacks
  registered for it and runs each, and a callback may register one for the next refresh.
\<close>

datatype event = MouseMove real real | MouseEnter | MouseLeave | AnimationFrame

fun run_callbacks :: "nat \<Rightarrow> cursor_state \<Rightarrow> cursor_state" where
  "run_callbacks 0 st = st"
| "run_callbacks (Suc n) st = run_callbacks n (snd (animateCursor st))"

fun step :: "cursor_state \<Rightarrow> event \<Rightarrow> cursor_state" where
  "step st (MouseMove x y) = snd (window_mousemove x y st)"
| "step st MouseEnter =
     (if hover_bound st then snd (interactiveElements_mouseenter st) else st)"
| "step st MouseLeave =
     (if hover_bound st then snd (interactiveElements_mouseleave st) else st)"
| "step st AnimationFrame = run_callbacks (raf st) (st\<lparr>raf := 0\<rparr>)"

definition run :: "cursor_state \<Rightarrow> event list \<Rightarrow> cursor_state" where
  "run st evs = foldl step st evs"

text \<open>The loop invariant: one callback is pending and the outline element is there.\<close>

definition loop_alive :: "cursor_state \<Rightarrow> bool" where
  "loop_alive st = (raf st = 1 \<and> cursorOutline st \<noteq> None)"


section \<open>Particle field (the Portfolio component)\<close>

subsection \<open>Storing into a Float32Array\<close>

text \<open>
  A store into a \<open>Float32Array\<close> rounds the number to the nearest single-precision
  value, ties to the even significand. \<open>float32_ulp\<close> is the spacing of those values
  around \<open>x\<close>: 2 to the power -149 for magnitudes below 2 to the power -125 (the
  subnormal and the lowest normal range), doubled for every binade above. A rounded
  value of magnitude 2 to the power 128 or more is stored as an infinity. The number
  being stored is taken as an exact real, as everywhere.
\<close>

definition round_half_even :: "real \<Rightarrow> int" where
  "round_half_even t =
     (let f = \<lfloor>t\<rfloor>; d = t - of_int f
      in if d < 1 / 2 then f else if 1 / 2 < d then f + 1 else if even f then f else f + 1)"

function ulp_search :: "real \<Rightarrow> real \<Rightarrow> real" where
  "ulp_search u a = (if 0 < u \<and> u * 2 ^ 24 \<le> a then ulp_search (2 * u) a else u)"
  by pat_completeness auto
termination
proof (relation "measure (\<lambda>(u, a). nat \<lceil>a / u\<rceil>)")
  show "wf (measure (\<lambda>(u, a). nat \<lceil>a / u\<rceil>))"
    by simp
next
  fix u a :: real
  assume h: "0 < u \<and> u * 2 ^ 24 \<le> a"
  then have t: "2 ^ 24 \<le> a / u"
    by (simp add: pos_le_divide_eq mult.commute)
  have "\<lceil>a / u / 2\<rceil> < \<lceil>a / u\<rceil>"
  proof -
    have "of_int \<lceil>a / u / 2\<rceil> < a / u / 2 + 1"
      by linarith
    also have "\<dots> \<le> a / u"
      using t by simp
    also have "\<dots> \<le> of_int \<lceil>a / u\<rceil>"
      by linarith
    finally show ?thesis
      by simp
  qed
  moreover have "0 < \<lceil>a / u\<rceil>"
    using t by (simp add: ceiling_less_iff)
  ultimately show "((2 * u, a), (u, a)) \<in> measure (\<lambda>(u, a). nat \<lceil>a / u\<rceil>)"
    by (simp add: mult.commute)
qed

declare ulp_search.simps [simp del]

definition float32_ulp :: "real \<Rightarrow> real" where
  "float32_ulp x = ulp_search (1 / 2 ^ 149) \<bar>x\<bar>"

definition float32_round :: "real \<Rightarrow> real" where
  "float32_round x = of_int (round_half_even (x / float32_ulp x)) * float32_ulp x"

definition to_float32 :: "real \<Rightarrow> number" where
  "to_float32 x =
     (let r = float32_round x
      in if 2 ^ 128 \<le> r then PosInf else if r \<le> - (2 ^ 128) then NegInf else Fin r)"

text \<open>The order of numbers; NaN is not comparable.\<close>

fun num_le :: "number \<Rightarrow> number \<Rightarrow> bool" where
  "num_le NaN _ = False"
| "num_le _ NaN = False"
| "num_le (Fin a) (Fin b) = (a \<le> b)"
| "num_le NegInf _ = True"
| "num_le _ PosInf = True"
| "num_le _ _ = False"

subsection \<open>generateParticles\<close>

text \<open>
  \<open>colorObj\<close> is \<open>new THREE.Color(COLORS.primary)\<close>; the library computes its
  channels, so they are a parameter. \<open>Math.random\<close> is a source \<open>rand\<close> of draws
  with a counter of the calls made so far; the host promises \<open>0 \<le> rand k < 1\<close>.
  The two \<open>Float32Array\<close>s are lists of numbers, every store going through
  \<open>to_float32\<close>; a write past the end of a typed array is ignored, as
  \<open>xs[i := v]\<close> is.
\<close>

record color =
  color_r :: real
  color_g :: real
  color_b :: real

definition Math_random :: "(nat \<Rightarrow> real) \<Rightarrow> nat \<Rightarrow> real \<times> nat" where
  "Math_random rand k = (rand k, k + 1)"

text \<open>One pass of the body of the \<open>for\<close> loop (lines 75-82), at index \<open>i\<close>.\<close>

definition particle_body ::
  "nat \<Rightarrow> (nat \<Rightarrow> real) \<Rightarrow> color \<Rightarrow> number list \<times> number list \<times> nat
     \<Rightarrow> number list \<times> number list \<times> nat" where
  "particle_body i rand colorObj s =
     (case s of (positions, colors, k0) \<Rightarrow>
        (case Math_random rand k0 of (u1, k1) \<Rightarrow>
        (case Math_random rand k1 of (u2, k2) \<Rightarrow>
        (case Math_random rand k2 of (u3, k3) \<Rightarrow>
        (case Math_random rand k3 of (u4, k4) \<Rightarrow>
        (case Math_random rand k4 of (u5, k5) \<Rightarrow>
           (positions[i * 3 := to_float32 ((u1 - 0.5) * 15),
                      i * 3 + 1 := to_float32 ((u2 - 0.5) * 15),
                      i * 3 + 2 := to_float32 ((u3 - 0.5) * 15)],
            colors[i * 3 := to_float32 (color_r colorObj),
                   i * 3 + 1 := to_float32 (color_g colorObj + u4 * 0.2),
                   i * 3 + 2 := to_float32 (color_b colorObj + u5 * 0.5)],
            k5)))))))"

function generateParticles_loop ::
  "nat \<Rightarrow> nat \<Rightarrow> (nat \<Rightarrow> real) \<Rightarrow> color \<Rightarrow> number list \<times> number list \<times> nat
     \<Rightarrow> number list \<times> number list \<times> nat" where
  "generateParticles_loop i count rand colorObj s =
     (if i < count
      then generateParticles_loop (i + 1) count rand colorObj (particle_body i rand colorObj s)
      else s)"
  by pat_completeness auto
termination
  by (relation "measure (\<lambda>(i, count, rand, colorObj, s). count - i)") auto

declare generateParticles_loop.simps [simp del]

text \<open>
  \<open>new Float32Array(n)\<close> throws a RangeError for a negative length and is filled with
  zeros otherwise. The count is an integer.
\<close>

definition generateParticles ::
  "int \<Rightarrow> (nat \<Rightarrow> real) \<Rightarrow> color \<Rightarrow> js_error + (number list \<times> number list)" where
  "generateParticles count rand colorObj =
     (if count * 3 < 0 then Inl RangeError
      else
        let positions = replicate (nat (count * 3)) (Fin 0);
            colors = replicate (nat (count * 3)) (Fin 0)
        in case generateParticles_loop 0 (nat count) rand colorObj (positions, colors, 0) of
             (positions, colors, k) \<Rightarrow> Inr (positions, colors))"

text \<open>
  What \<open>Math.random\<close> promises, and the invariant of the loop before pass \<open>i\<close>:
  both arrays have their full length, every position component written so far is finite
  and within the cube, and every colour written so far is the stored base red, a stored
  green of base plus a jitter below 0.2, and a stored blue of base plus a jitter below
  0.5.
\<close>

definition unit_draws :: "(nat \<Rightarrow> real) \<Rightarrow> bool" where
  "unit_draws rand = (\<forall>k. 0 \<le> rand k \<and> rand k < 1)"

definition in_cube :: "number \<Rightarrow> bool" where
  "in_cube p = (\<exists>v. p = Fin v \<and> - 7.5 \<le> v \<and> v \<le> 7.5)"

definition jittered :: "real \<Rightarrow> real \<Rightarrow> number \<Rightarrow> bool" where
  "jittered base bound p = (\<exists>u. 0 \<le> u \<and> u < 1 \<and> p = to_float32 (base + u * bound))"

definition particles_inv ::
  "color \<Rightarrow> nat \<Rightarrow> nat \<Rightarrow> number list \<times> number list \<times> nat \<Rightarrow> bool" where
  "particles_inv c n i s =
     (case s of (positions, colors, k) \<Rightarrow>
        length positions = n * 3 \<and> length colors = n * 3
        \<and> (\<forall>j < i * 3. in_cube (positions ! j))
        \<and> (\<forall>j < i. colors ! (j * 3) = to_float32 (color_r c)
               \<and> jittered (color_g c) 0.2 (colors ! (j * 3 + 1))
               \<and> jittered (color_b c) 0.5 (colors ! (j * 3 + 2))))"

text \<open>
  The colour bound as the specification states it, for one particle at index \<open>i\<close>:
  the red channel is the base value and the green and blue channels lie within 0.2 and
  0.5 above their base values.
\<close>

definition spec_color_bound :: "color \<Rightarrow> number list \<Rightarrow> nat \<Rightarrow> bool" where
  "spec_color_bound c colors i =
     (colors ! (i * 3) = Fin (color_r c)
      \<and> num_le (Fin (color_g c)) (colors ! (i * 3 + 1))
      \<and> num_le (colors ! (i * 3 + 1)) (Fin (color_g c + 0.2))
      \<and> num_le (Fin (color_b c)) (colors ! (i * 3 + 2))
      \<and> num_le (colors ! (i * 3 + 2)) (Fin (color_b c + 0.5)))"

text \<open>Two sources of draws for the examples: all just below 1, and 0, 1/4, 1/2, 3/4 in turn.\<close>

definition high_draws :: "nat \<Rightarrow> real" where
  "high_draws k = 1 - 1 / 2 ^ 30"

definition quarter_draws :: "nat \<Rightarrow> real" where
  "quarter_draws k = real (k mod 4) / 4"

subsection \<open>The frame callback of Constellation\<close>

text \<open>
  \<open>points.current\<close> is undefined until the renderer attaches the object, and holds an
  object with a rotation afterwards. Reading a property of undefined throws a TypeError.
\<close>

record object3d =
  rotation_x :: number
  rotation_y :: number
  rotation_z :: number

definition deref :: "'a option \<Rightarrow> js_error + 'a" where
  "deref ref = (case ref of None \<Rightarrow> Inl TypeError | Some obj \<Rightarrow> Inr obj)"

text \<open>
  \<open>mouse.current[i]\<close>: a read past the end of an array gives undefined, which the
  multiplication that follows turns into NaN.
\<close>

definition array_get :: "number list \<Rightarrow> nat \<Rightarrow> number" where
  "array_get xs i = (if i < length xs then xs ! i else NaN)"

text \<open>The statement \<open>rotation += (target - rotation) * 0.05\<close> of lines 108 and 109.\<close>

definition smoothing_step :: "number \<Rightarrow> number \<Rightarrow> number" where
  "smoothing_step rotation target =
     num_add rotation (num_mul (num_sub target rotation) (Fin 0.05))"

definition Constellation_useFrame ::
  "object3d option \<Rightarrow> real \<Rightarrow> number list \<Rightarrow> js_error + object3d option" where
  "Constellation_useFrame points_current time mouse_current =
     (if points_current = None then Inr points_current
      else
        case deref points_current of
          Inl e \<Rightarrow> Inl e
        | Inr p \<Rightarrow>
            let p1 = p\<lparr>rotation_x := num_mul (Fin time) (Fin 0.05)\<rparr>;
                p2 = p1\<lparr>rotation_y := num_mul (Fin time) (Fin 0.03)\<rparr>;
                targetX = num_mul (array_get mouse_current 0) (Fin 0.5);
                targetY = num_mul (array_get mouse_current 1) (Fin 0.5);
                p3 = p2\<lparr>rotation_x := smoothing_step (rotation_x p2) targetY\<rparr>;
                p4 = p3\<lparr>rotation_y := smoothing_step (rotation_y p3) targetX\<rparr>
            in Inr (Some p4))"

text \<open>
  The update the specification describes instead: from the rotation the previous frame
  left, a step of 0.05 toward autonomous rotation plus target offset.
\<close>

definition spec_blend :: "real \<Rightarrow> real \<Rightarrow> real \<Rightarrow> real" where
  "spec_blend previous autonomous target =
     previous + 0.05 * ((autonomous + target) - previous)"

text \<open>
  The recurrence the specification states for the smoothing step, from the rotation the
  previous frame left.
\<close>

definition spec_smoothing :: "real \<Rightarrow> real \<Rightarrow> real \<Rightarrow> real" where
  "spec_smoothing rotation target damping_coefficient =
     rotation + (target - rotation) * damping_coefficient"

subsection \<open>Portfolio: the pointer state\<close>

definition mouse_init :: "number list" where
  "mouse_init = [Fin 0, Fin 0]"

text \<open>
  \<open>handleMouseMove\<close> with the event's \<open>clientX\<close>, \<open>clientY\<close> and the window's
  \<open>innerWidth\<close>, \<open>innerHeight\<close> (integers, not negative); the result is the new
  \<open>mouse.current\<close>.
\<close>

definition handleMouseMove :: "real \<Rightarrow> real \<Rightarrow> nat \<Rightarrow> nat \<Rightarrow> number list" where
  "handleMouseMove clientX clientY innerWidth innerHeight =
     [num_sub (num_mul (num_div (Fin clientX) (Fin (real innerWidth))) (Fin 2)) (Fin 1),
      num_add (num_mul (num_neg (num_div (Fin clientY) (Fin (real innerHeight)))) (Fin 2)) (Fin 1)]"

text \<open>
  The scene: the pointer state shared by \<open>Portfolio\<close> and \<open>Constellation\<close>, and the
  render target. Its events are a pointer move (with the window's extent at that time),
  a frame, and the renderer attaching or detaching the target.
\<close>

record scene =
  mouse :: "number list"
  points :: "object3d option"

datatype scene_event =
  PointerMove real real nat nat
| Frame real
| Attach object3d
| Detach

fun scene_step :: "scene \<Rightarrow> scene_event \<Rightarrow> scene" where
  "scene_step s (PointerMove x y w h) = s\<lparr>mouse := handleMouseMove x y w h\<rparr>"
| "scene_step s (Frame time) =
     (case Constellation_useFrame (points s) time (mouse s) of
        Inl e \<Rightarrow> s
      | Inr p \<Rightarrow> s\<lparr>points := p\<rparr>)"
| "scene_step s (Attach obj) = s\<lparr>points := Some obj\<rparr>"
| "scene_step s Detach = s\<lparr>points := None\<rparr>"

definition scene_init :: scene where
  "scene_init = \<lparr>mouse = mouse_init, points = None\<rparr>"

definition scene_run :: "scene_event list \<Rightarrow> scene" where
  "scene_run evs = foldl scene_step scene_init evs"

text \<open>
  The condition the specification states for a pointer move: coordinates in
  [0, width] x [0, height].
\<close>

fun in_extent :: "scene_event \<Rightarrow> bool" where
  "in_extent (PointerMove x y w h) = (0 \<le> x \<and> x \<le> real w \<and> 0 \<le> y \<and> y \<le> real h)"
| "in_extent _ = True"

text \<open>A pointer move inside a viewport that is not empty.\<close>

fun in_viewport :: "scene_event \<Rightarrow> bool" where
  "in_viewport (PointerMove x y w h) = (0 < w \<and> 0 < h \<and> 0 \<le> x \<and> x \<le> real w \<and> 0 \<le> y \<and> y \<le> real h)"
| "in_viewport _ = True"

fun in_unit_range :: "number \<Rightarrow> bool" where
  "in_unit_range (Fin a) = (- 1 \<le> a \<and> a \<le> 1)"
| "in_unit_range _ = False"

definition pointer_state_ok :: "number list \<Rightarrow> bool" where
  "pointer_state_ok m = (length m = 2 \<and> in_unit_range (m ! 0) \<and> in_unit_range (m ! 1))"

section \<open>Properties of the cursor follower\<close>

lemma animateCursor_outline:
  "outlineX (snd (animateCursor st)) = outlineX st + (mouseX st - outlineX st) * 0.5"
  "outlineY (snd (animateCursor st)) = outlineY st + (mouseY st - outlineY st) * 0.5"
  "mouseX (snd (animateCursor st)) = mouseX st"
  "mouseY (snd (animateCursor st)) = mouseY st"
  by (simp_all add: animateCursor_def speed_def Let_def split: option.splits)

lemma animateCursor_present:
  "cursorOutline st = Some ol \<Longrightarrow>
     fst (animateCursor st) = None \<and> raf (snd (animateCursor st)) = raf st + 1
     \<and> cursorOutline (snd (animateCursor st)) \<noteq> None
     \<and> hover_bound (snd (animateCursor st)) = hover_bound st"
  by (simp add: animateCursor_def Let_def)

lemma animateCursor_absent:
  "cursorOutline st = None \<Longrightarrow>
     fst (animateCursor st) = Some TypeError \<and> raf (snd (animateCursor st)) = raf st"
  by (simp add: animateCursor_def Let_def)

text \<open>
  C3. Every execution of \<open>animateCursor\<close> replaces each eased coordinate by
  \<open>eased + (raw - eased) * 0.5\<close> and leaves the raw coordinates alone; a display
  refresh with one callback pending is one such execution; from eased (0,0) with raw
  (100,100) one execution gives (50,50) and a second gives (75,75).
\<close>

theorem cursor_easing_recurrence:
  "outlineX (snd (animateCursor st)) = outlineX st + (mouseX st - outlineX st) * 0.5
   \<and> outlineY (snd (animateCursor st)) = outlineY st + (mouseY st - outlineY st) * 0.5
   \<and> mouseX (snd (animateCursor st)) = mouseX st
   \<and> mouseY (snd (animateCursor st)) = mouseY st
   \<and> step (st\<lparr>raf := 1\<rparr>) AnimationFrame = snd (animateCursor (st\<lparr>raf := 0\<rparr>))
   \<and> (let s0 = st\<lparr>mouseX := 100, mouseY := 100, outlineX := 0, outlineY := 0\<rparr>;
           s1 = snd (animateCursor s0);
           s2 = snd (animateCursor s1)
       in outlineX s1 = 50 \<and> outlineY s1 = 50 \<and> outlineX s2 = 75 \<and> outlineY s2 = 75)"
  by (simp add: animateCursor_outline Let_def)

lemma mouseenter_idem:
  "snd (interactiveElements_mouseenter (snd (interactiveElements_mouseenter st)))
     = snd (interactiveElements_mouseenter st)"
  by (simp add: interactiveElements_mouseenter_def Let_def split: option.splits)

lemma mouseenter_hover_bound:
  "hover_bound (snd (interactiveElements_mouseenter st)) = hover_bound st"
  by (simp add: interactiveElements_mouseenter_def Let_def split: option.splits)

lemma step_enter_idem: "step (step st MouseEnter) MouseEnter = step st MouseEnter"
  by (simp add: mouseenter_idem mouseenter_hover_bound)

lemma run_enter_replicate:
  "run st (replicate (Suc n) MouseEnter) = step st MouseEnter"
proof (induction n)
  case 0
  show ?case by (simp add: run_def)
next
  case (Suc n)
  have "run st (replicate (Suc (Suc n)) MouseEnter)
          = step (run st (replicate (Suc n) MouseEnter)) MouseEnter"
    unfolding run_def by (simp only: replicate_Suc [of "Suc n"] replicate_append_same [symmetric] foldl_append foldl_Cons foldl_Nil)
  then show ?case
    by (simp only: Suc.IH step_enter_idem)
qed

text \<open>
  C6. Any number of pointer-enter events in a row, with no pointer-leave between them,
  leaves the state a single pointer-enter event leaves; the handler applied twice is the
  handler applied once; and with both cursor elements present it writes the fixed
  hovered transform and fill, whatever they were before.
\<close>

theorem hover_enter_idempotent:
  "run st (replicate (Suc n) MouseEnter) = run st [MouseEnter]
   \<and> snd (interactiveElements_mouseenter (snd (interactiveElements_mouseenter st)))
       = snd (interactiveElements_mouseenter st)
   \<and> interactiveElements_mouseenter (st\<lparr>cursorDot := Some dot, cursorOutline := Some ol\<rparr>)
       = (None, st\<lparr>cursorDot := Some (dot\<lparr>style_transform := ''translate(-50%, -50%) scale(0.5)''\<rparr>),
                   cursorOutline :=
                     Some (ol\<lparr>style_transform := ''translate(-50%, -50%) scale(1.5)'',
                              style_backgroundColor := ''rgba(255, 255, 255, 0.1)''\<rparr>)\<rparr>)"
proof -
  have "run st [MouseEnter] = step st MouseEnter"
    by (simp add: run_def)
  then have a: "run st (replicate (Suc n) MouseEnter) = run st [MouseEnter]"
    by (simp only: run_enter_replicate)
  have c: "interactiveElements_mouseenter (st\<lparr>cursorDot := Some dot, cursorOutline := Some ol\<rparr>)
       = (None, st\<lparr>cursorDot := Some (dot\<lparr>style_transform := ''translate(-50%, -50%) scale(0.5)''\<rparr>),
                   cursorOutline :=
                     Some (ol\<lparr>style_transform := ''translate(-50%, -50%) scale(1.5)'',
                              style_backgroundColor := ''rgba(255, 255, 255, 0.1)''\<rparr>)\<rparr>)"
    by (simp add: interactiveElements_mouseenter_def Let_def)
  from a mouseenter_idem c show ?thesis by blast
qed

lemma step_loop_alive: "loop_alive st \<Longrightarrow> loop_alive (step st ev)"
proof (cases ev)
  case (MouseMove x y)
  assume "loop_alive st"
  then show ?thesis
    by (simp add: MouseMove loop_alive_def window_mousemove_def Let_def split: option.splits)
next
  case MouseEnter
  assume "loop_alive st"
  then show ?thesis
    by (auto simp: MouseEnter loop_alive_def interactiveElements_mouseenter_def Let_def
             split: option.splits)
next
  case MouseLeave
  assume "loop_alive st"
  then show ?thesis
    by (auto simp: MouseLeave loop_alive_def interactiveElements_mouseleave_def Let_def
             split: option.splits)
next
  case AnimationFrame
  assume "loop_alive st"
  then obtain ol where ol: "cursorOutline (st\<lparr>raf := 0\<rparr>) = Some ol" and r: "raf st = 1"
    by (auto simp: loop_alive_def)
  have "step st AnimationFrame = snd (animateCursor (st\<lparr>raf := 0\<rparr>))"
    by (simp add: r)
  with animateCursor_present [OF ol] show ?thesis
    by (simp add: AnimationFrame loop_alive_def)
qed

lemma run_loop_alive: "loop_alive st \<Longrightarrow> loop_alive (run st evs)"
  unfolding run_def
  by (induction evs arbitrary: st) (simp_all add: step_loop_alive)

lemma started_loop_alive:
  "fst (DOMContentLoaded dot outline) = None \<Longrightarrow> loop_alive (snd (DOMContentLoaded dot outline))"
  by (cases outline)
     (simp_all add: DOMContentLoaded_def animateCursor_def initial_state_def Let_def loop_alive_def)

text \<open>
  C8. Once the loop is started (the \<open>DOMContentLoaded\<close> handler's first call of
  \<open>animateCursor\<close> returned), then after any sequence of pointer-move, pointer-enter,
  pointer-leave and display-refresh events a callback is pending for the next refresh;
  executing it returns normally and registers the next one; and the refresh that runs it
  leaves a callback pending again.
\<close>

theorem cursor_loop_runs_forever:
  assumes "fst (DOMContentLoaded dot outline) = None"
  shows "raf (run (snd (DOMContentLoaded dot outline)) evs) = 1
         \<and> fst (animateCursor (run (snd (DOMContentLoaded dot outline)) evs)) = None
         \<and> raf (snd (animateCursor (run (snd (DOMContentLoaded dot outline)) evs)))
             = raf (run (snd (DOMContentLoaded dot outline)) evs) + 1
         \<and> raf (step (run (snd (DOMContentLoaded dot outline)) evs) AnimationFrame) = 1"
proof -
  let ?st = "run (snd (DOMContentLoaded dot outline)) evs"
  have alive: "loop_alive ?st"
    using assms by (intro run_loop_alive started_loop_alive)
  then obtain ol where ol: "cursorOutline ?st = Some ol"
    by (auto simp: loop_alive_def)
  have "loop_alive (step ?st AnimationFrame)"
    using alive by (rule step_loop_alive)
  with alive animateCursor_present [OF ol] show ?thesis
    by (simp add: loop_alive_def)
qed

theorem cursor_loop_runs_forever_witness:
  "fst (DOMContentLoaded
          (Some \<lparr>style_left = None, style_top = None, style_transform = [], style_backgroundColor = []\<rparr>)
          (Some \<lparr>style_left = None, style_top = None, style_transform = [], style_backgroundColor = []\<rparr>))
     = None
   \<and> raf (run (snd (DOMContentLoaded
          (Some \<lparr>style_left = None, style_top = None, style_transform = [], style_backgroundColor = []\<rparr>)
          (Some \<lparr>style_left = None, style_top = None, style_transform = [], style_backgroundColor = []\<rparr>)))
        [MouseMove 100 100, AnimationFrame, MouseEnter, AnimationFrame, MouseLeave]) = 1"
proof -
  have h: "fst (DOMContentLoaded
          (Some \<lparr>style_left = None, style_top = None, style_transform = [], style_backgroundColor = []\<rparr>)
          (Some \<lparr>style_left = None, style_top = None, style_transform = [], style_backgroundColor = []\<rparr>))
     = None"
    by (simp add: DOMContentLoaded_def animateCursor_def initial_state_def Let_def)
  from h cursor_loop_runs_forever [OF h, of "[MouseMove 100 100, AnimationFrame, MouseEnter, AnimationFrame, MouseLeave]"]
  show ?thesis by simp
qed

section \<open>Properties of the single-precision store\<close>

lemma round_half_even_le: "t \<le> of_int n \<Longrightarrow> round_half_even t \<le> n"
proof -
  assume h: "t \<le> of_int n"
  show ?thesis
  proof (cases "t = of_int n")
    case True
    then show ?thesis by (simp add: round_half_even_def)
  next
    case False
    with h have "t < of_int n" by simp
    then have "\<lfloor>t\<rfloor> < n"
      by (simp add: floor_less_iff)
    then show ?thesis
      by (simp add: round_half_even_def Let_def)
  qed
qed

lemma round_half_even_ge: "of_int n \<le> t \<Longrightarrow> n \<le> round_half_even t"
proof -
  assume "of_int n \<le> t"
  then have "n \<le> \<lfloor>t\<rfloor>"
    by (simp add: le_floor_iff)
  then show ?thesis
    by (simp add: round_half_even_def Let_def)
qed

lemma round_half_even_mono: "s \<le> t \<Longrightarrow> round_half_even s \<le> round_half_even t"
proof (cases "\<lfloor>s\<rfloor> = \<lfloor>t\<rfloor>")
  case True
  assume "s \<le> t"
  with True show ?thesis
    by (simp add: round_half_even_def Let_def)
next
  case False
  assume st: "s \<le> t"
  then have "\<lfloor>s\<rfloor> \<le> \<lfloor>t\<rfloor>"
    by (rule floor_mono)
  with False have lt: "\<lfloor>s\<rfloor> + 1 \<le> \<lfloor>t\<rfloor>"
    by simp
  have "round_half_even s \<le> \<lfloor>s\<rfloor> + 1"
    by (simp add: round_half_even_def Let_def)
  moreover have "\<lfloor>t\<rfloor> \<le> round_half_even t"
    by (simp add: round_half_even_def Let_def)
  ultimately show ?thesis
    using lt by linarith
qed

lemma round_half_even_int: "round_half_even (of_int n) = n"
  by (simp add: round_half_even_def)

lemma round_half_even_minus: "round_half_even (- t) = - round_half_even t"
proof (cases "t = of_int \<lfloor>t\<rfloor>")
  case True
  then have "round_half_even t = \<lfloor>t\<rfloor>" "round_half_even (- t) = - \<lfloor>t\<rfloor>"
    using round_half_even_int [of "\<lfloor>t\<rfloor>"] round_half_even_int [of "- \<lfloor>t\<rfloor>"] by simp_all
  then show ?thesis by simp
next
  case False
  then have c: "\<lceil>t\<rceil> = \<lfloor>t\<rfloor> + 1"
    by (simp add: ceiling_altdef)
  have "\<lfloor>- t\<rfloor> = - \<lceil>t\<rceil>"
    by (simp add: ceiling_def)
  with c have f: "\<lfloor>- t\<rfloor> = - \<lfloor>t\<rfloor> - 1"
    by simp
  show ?thesis
    unfolding round_half_even_def Let_def f by auto
qed

text \<open>Rounding to a grid of spacing \<open>u\<close> never crosses a point of the grid.\<close>

lemma round_grid_le:
  "0 < u \<Longrightarrow> x \<le> of_int n * u \<Longrightarrow> of_int (round_half_even (x / u)) * u \<le> of_int n * u"
proof -
  assume u: "0 < u" and x: "x \<le> of_int n * u"
  then have "x / u \<le> of_int n"
    by (simp add: pos_divide_le_eq)
  then have "round_half_even (x / u) \<le> n"
    by (rule round_half_even_le)
  then have "(of_int (round_half_even (x / u)) :: real) \<le> of_int n"
    by (simp only: of_int_le_iff)
  with u show ?thesis
    by (simp only: mult_le_cancel_right_pos)
qed

lemma round_grid_ge:
  "0 < u \<Longrightarrow> of_int n * u \<le> x \<Longrightarrow> of_int n * u \<le> of_int (round_half_even (x / u)) * u"
proof -
  assume u: "0 < u" and x: "of_int n * u \<le> x"
  then have "of_int n \<le> x / u"
    by (simp add: pos_le_divide_eq)
  then have "n \<le> round_half_even (x / u)"
    by (rule round_half_even_ge)
  then have "(of_int n :: real) \<le> of_int (round_half_even (x / u))"
    by (simp only: of_int_le_iff)
  with u show ?thesis
    by (simp only: mult_le_cancel_right_pos)
qed

lemma ulp_search_pow: "0 < u \<Longrightarrow> \<exists>k. ulp_search u a = u * 2 ^ k"
proof (induction u a rule: ulp_search.induct)
  case (1 u a)
  show ?case
  proof (cases "u * 2 ^ 24 \<le> a")
    case True
    with "1.prems" "1.IH" obtain k where "ulp_search (2 * u) a = 2 * u * 2 ^ k"
      by auto
    with True "1.prems" have "ulp_search u a = u * 2 ^ Suc k"
      by (subst ulp_search.simps) simp
    then show ?thesis ..
  next
    case False
    then have "ulp_search u a = u * 2 ^ 0"
      by (subst ulp_search.simps) simp
    then show ?thesis ..
  qed
qed

lemma ulp_search_upper: "0 < u \<Longrightarrow> a < ulp_search u a * 2 ^ 24"
proof (induction u a rule: ulp_search.induct)
  case (1 u a)
  show ?case
  proof (cases "u * 2 ^ 24 \<le> a")
    case True
    with "1.prems" "1.IH" have "a < ulp_search (2 * u) a * 2 ^ 24"
      by simp
    with True "1.prems" show ?thesis
      by (subst ulp_search.simps) simp
  next
    case False
    then show ?thesis
      by (subst ulp_search.simps) simp
  qed
qed

lemma ulp_search_lower: "0 < u \<Longrightarrow> ulp_search u a = u \<or> ulp_search u a * 2 ^ 23 \<le> a"
proof (induction u a rule: ulp_search.induct)
  case (1 u a)
  show ?case
  proof (cases "u * 2 ^ 24 \<le> a")
    case True
    with "1.prems" "1.IH" have "ulp_search (2 * u) a = 2 * u \<or> ulp_search (2 * u) a * 2 ^ 23 \<le> a"
      by simp
    with True have "ulp_search (2 * u) a * 2 ^ 23 \<le> a"
      by auto
    with True "1.prems" show ?thesis
      by (subst ulp_search.simps) simp
  next
    case False
    then show ?thesis
      by (subst ulp_search.simps) simp
  qed
qed

text \<open>
  The spacing is \<open>2 ^ k / 2 ^ 149\<close> for the one \<open>k\<close> whose binade holds \<open>x\<close>
  (\<open>k = 0\<close> also covers everything below).
\<close>

lemma float32_ulp_cases:
  obtains k :: nat where "float32_ulp x = 2 ^ k / 2 ^ 149"
    and "\<bar>x\<bar> < 2 ^ k / 2 ^ 125" and "k = 0 \<or> 2 ^ k / 2 ^ 126 \<le> \<bar>x\<bar>"
proof -
  have pos: "(0::real) < 1 / 2 ^ 149"
    by simp
  from ulp_search_pow [OF pos, of "\<bar>x\<bar>"] obtain k :: nat
    where k: "float32_ulp x = 2 ^ k / 2 ^ 149"
    by (auto simp: float32_ulp_def)
  from ulp_search_upper [OF pos, of "\<bar>x\<bar>"] have "\<bar>x\<bar> < 2 ^ k / 2 ^ 149 * 2 ^ 24"
    by (simp only: k [unfolded float32_ulp_def])
  then have up: "\<bar>x\<bar> < 2 ^ k / 2 ^ 125"
    by simp
  from ulp_search_lower [OF pos, of "\<bar>x\<bar>"]
  have "(2::real) ^ k / 2 ^ 149 = 1 / 2 ^ 149 \<or> 2 ^ k / 2 ^ 149 * 2 ^ 23 \<le> \<bar>x\<bar>"
    by (simp only: k [unfolded float32_ulp_def])
  moreover have "k = 0" if "(2::real) ^ k / 2 ^ 149 = 1 / 2 ^ 149"
  proof -
    from that have "(2::real) ^ k = 1" by simp
    with power_inject_exp [of "2::real" k 0] show ?thesis by simp
  qed
  ultimately have "k = 0 \<or> 2 ^ k / 2 ^ 126 \<le> \<bar>x\<bar>"
    by auto
  with k up show ?thesis
    by (rule that)
qed

lemma float32_ulp_char:
  fixes k :: nat
  assumes up: "\<bar>x\<bar> < 2 ^ k / 2 ^ 125" and lo: "k = 0 \<or> 2 ^ k / 2 ^ 126 \<le> \<bar>x\<bar>"
  shows "float32_ulp x = 2 ^ k / 2 ^ 149"
proof -
  obtain j :: nat where j: "float32_ulp x = 2 ^ j / 2 ^ 149"
    and jup: "\<bar>x\<bar> < 2 ^ j / 2 ^ 125" and jlo: "j = 0 \<or> 2 ^ j / 2 ^ 126 \<le> \<bar>x\<bar>"
    by (rule float32_ulp_cases)
  have "\<not> j < k"
  proof
    assume jk: "j < k"
    with lo have "2 ^ k / 2 ^ 126 \<le> \<bar>x\<bar>" by simp
    with jup have "(2::real) ^ k / 2 ^ 126 < 2 ^ j / 2 ^ 125" by simp
    then have "(2::real) ^ k < 2 ^ Suc j" by simp
    then have "k < Suc j" by (rule power_less_imp_less_exp [rotated]) simp
    with jk show False by simp
  qed
  moreover have "\<not> k < j"
  proof
    assume kj: "k < j"
    with jlo have "2 ^ j / 2 ^ 126 \<le> \<bar>x\<bar>" by simp
    with up have "(2::real) ^ j / 2 ^ 126 < 2 ^ k / 2 ^ 125" by simp
    then have "(2::real) ^ j < 2 ^ Suc k" by simp
    then have "j < Suc k" by (rule power_less_imp_less_exp [rotated]) simp
    with kj show False by simp
  qed
  ultimately have "j = k" by simp
  with j show ?thesis by simp
qed

lemma float32_ulp_pos: "0 < float32_ulp x"
proof -
  obtain k :: nat where u: "float32_ulp x = 2 ^ k / 2 ^ 149"
    by (rule float32_ulp_cases)
  have "(0::real) < 2 ^ k / 2 ^ 149"
    by simp
  then show ?thesis
    by (simp only: u)
qed

lemma to_float32_round:
  "to_float32 x =
     (if 2 ^ 128 \<le> float32_round x then PosInf
      else if float32_round x \<le> - (2 ^ 128) then NegInf else Fin (float32_round x))"
  by (simp add: to_float32_def Let_def)

lemma float32_round_minus: "float32_round (- x) = - float32_round x"
  by (simp add: float32_round_def float32_ulp_def round_half_even_minus)

lemma float32_round_nonneg: "0 \<le> x \<Longrightarrow> 0 \<le> float32_round x"
  using round_grid_ge [OF float32_ulp_pos, of 0 x x] by (simp add: float32_round_def)

lemma float32_round_mono_nonneg:
  assumes x: "0 \<le> x" and xy: "x \<le> y"
  shows "float32_round x \<le> float32_round y"
proof -
  obtain kx :: nat where ux: "float32_ulp x = 2 ^ kx / 2 ^ 149"
    and upx: "\<bar>x\<bar> < 2 ^ kx / 2 ^ 125" and lox: "kx = 0 \<or> 2 ^ kx / 2 ^ 126 \<le> \<bar>x\<bar>"
    by (rule float32_ulp_cases)
  obtain ky :: nat where uy: "float32_ulp y = 2 ^ ky / 2 ^ 149"
    and upy: "\<bar>y\<bar> < 2 ^ ky / 2 ^ 125" and loy: "ky = 0 \<or> 2 ^ ky / 2 ^ 126 \<le> \<bar>y\<bar>"
    by (rule float32_ulp_cases)
  from x xy have ax: "\<bar>x\<bar> = x" and ay: "\<bar>y\<bar> = y"
    by simp_all
  have kxy: "kx \<le> ky"
  proof (rule ccontr)
    assume "\<not> kx \<le> ky"
    then have lt: "ky < kx" by simp
    with lox have "2 ^ kx / 2 ^ 126 \<le> x" by (simp add: ax)
    with xy upy have "(2::real) ^ kx / 2 ^ 126 < 2 ^ ky / 2 ^ 125" by (simp add: ay)
    then have "(2::real) ^ kx < 2 ^ Suc ky" by simp
    then have "kx < Suc ky" by (rule power_less_imp_less_exp [rotated]) simp
    with lt show False by simp
  qed
  show ?thesis
  proof (cases "kx = ky")
    case True
    with ux uy have same: "float32_ulp y = float32_ulp x"
      by simp
    from xy float32_ulp_pos [of x] have "x / float32_ulp x \<le> y / float32_ulp x"
      by (simp add: divide_right_mono)
    then have "round_half_even (x / float32_ulp x) \<le> round_half_even (y / float32_ulp x)"
      by (rule round_half_even_mono)
    then have "(of_int (round_half_even (x / float32_ulp x)) :: real)
                 \<le> of_int (round_half_even (y / float32_ulp x))"
      by (simp only: of_int_le_iff)
    with float32_ulp_pos [of x] show ?thesis
      unfolding float32_round_def same by (simp only: mult_le_cancel_right_pos)
  next
    case False
    with kxy have lt: "kx < ky" by simp
    define B :: real where "B = 2 ^ ky / 2 ^ 126"
    from lt loy have By: "B \<le> y"
      by (simp add: B_def ay)
    from lt have "Suc kx \<le> ky" by simp
    then have "(2::real) ^ Suc kx \<le> 2 ^ ky"
      by (rule power_increasing) simp
    then have "(2::real) ^ kx / 2 ^ 125 \<le> B"
      by (simp add: B_def)
    with upx have xB: "x \<le> B"
      by (simp add: ax)
    have "(2::real) ^ (ky - kx + 23) * 2 ^ kx = 2 ^ (ky + 23)"
      using kxy by (simp add: power_add [symmetric])
    then have "(2::real) ^ (ky - kx + 23) * 2 ^ kx / 2 ^ 149 = 2 ^ (ky + 23) / 2 ^ 149"
      by simp
    then have Bx: "of_int (2 ^ (ky - kx + 23)) * float32_ulp x = B"
      by (simp add: ux B_def power_add)
    have By': "of_int (2 ^ 23) * float32_ulp y = B"
      by (simp add: uy B_def)
    from xB have "x \<le> of_int (2 ^ (ky - kx + 23)) * float32_ulp x"
      by (simp only: Bx)
    with float32_ulp_pos have "float32_round x \<le> of_int (2 ^ (ky - kx + 23)) * float32_ulp x"
      unfolding float32_round_def by (rule round_grid_le)
    then have 1: "float32_round x \<le> B"
      by (simp only: Bx)
    from By have "of_int (2 ^ 23) * float32_ulp y \<le> y"
      by (simp only: By')
    with float32_ulp_pos have "of_int (2 ^ 23) * float32_ulp y \<le> float32_round y"
      unfolding float32_round_def by (rule round_grid_ge)
    then have 2: "B \<le> float32_round y"
      by (simp only: By')
    from 1 2 show ?thesis
      by simp
  qed
qed

lemma float32_round_mono: "x \<le> y \<Longrightarrow> float32_round x \<le> float32_round y"
proof -
  assume xy: "x \<le> y"
  consider "0 \<le> x" | "x < 0" "0 \<le> y" | "y < 0"
    by linarith
  then show ?thesis
  proof cases
    case 1
    then show ?thesis using xy by (rule float32_round_mono_nonneg)
  next
    case 2
    then have "0 \<le> float32_round (- x)" "0 \<le> float32_round y"
      by (simp_all add: float32_round_nonneg)
    then show ?thesis
      by (simp add: float32_round_minus)
  next
    case 3
    with xy have "0 \<le> - y" "- y \<le> - x"
      by simp_all
    then have "float32_round (- y) \<le> float32_round (- x)"
      by (rule float32_round_mono_nonneg)
    then show ?thesis
      by (simp add: float32_round_minus)
  qed
qed

lemma to_float32_mono: "x \<le> y \<Longrightarrow> num_le (to_float32 x) (to_float32 y)"
  using float32_round_mono [of x y] by (simp add: to_float32_round)

text \<open>7.5 is a single-precision value, so nothing of magnitude up to 7.5 is stored beyond it.\<close>

lemma to_float32_within:
  assumes x: "\<bar>x\<bar> \<le> 15 / 2"
  shows "in_cube (to_float32 x)"
proof -
  obtain k :: nat where u: "float32_ulp x = 2 ^ k / 2 ^ 149"
    and lo: "k = 0 \<or> 2 ^ k / 2 ^ 126 \<le> \<bar>x\<bar>"
    by (rule float32_ulp_cases)
  have k: "k \<le> 148"
  proof (cases "k = 0")
    case True
    then show ?thesis by simp
  next
    case False
    with lo x have "(2::real) ^ k / 2 ^ 126 \<le> 15 / 2" by simp
    then have "(2::real) ^ k < 2 ^ 129" by simp
    then have "k < 129" by (rule power_less_imp_less_exp [rotated]) simp
    then show ?thesis by simp
  qed
  define N :: int where "N = 15 * 2 ^ (148 - k)"
  have "(2::real) ^ (148 - k) * 2 ^ k = 2 ^ 148"
    using k by (simp add: power_add [symmetric])
  then have "15 * (2::real) ^ (148 - k) * 2 ^ k / 2 ^ 149 = 15 * 2 ^ 148 / 2 ^ 149"
    by simp
  then have NU: "of_int N * float32_ulp x = 15 / 2"
    by (simp add: N_def u)
  have mNU: "of_int (- N) * float32_ulp x = - (15 / 2)"
    using NU by simp
  from x have "x \<le> 15 / 2"
    by linarith
  then have "x \<le> of_int N * float32_ulp x"
    by (simp only: NU)
  with float32_ulp_pos have "float32_round x \<le> of_int N * float32_ulp x"
    unfolding float32_round_def by (rule round_grid_le)
  then have hi: "float32_round x \<le> 15 / 2"
    by (simp only: NU)
  from x have "- (15 / 2) \<le> x"
    by linarith
  then have "of_int (- N) * float32_ulp x \<le> x"
    by (simp only: mNU)
  with float32_ulp_pos have "of_int (- N) * float32_ulp x \<le> float32_round x"
    unfolding float32_round_def by (rule round_grid_ge)
  then have "- (15 / 2) \<le> float32_round x"
    by (simp only: mNU)
  with hi show ?thesis
    by (simp add: to_float32_round in_cube_def)
qed

section \<open>Properties of the particle generator\<close>

lemma position_in_cube: "0 \<le> u \<Longrightarrow> u < 1 \<Longrightarrow> in_cube (to_float32 ((u - 0.5) * 15))"
proof -
  assume "0 \<le> u" "u < 1"
  then have "(u - 0.5) * 15 \<le> 15 / 2" "- ((u - 0.5) * 15) \<le> 15 / 2"
    by simp_all
  then have "\<bar>(u - 0.5) * 15\<bar> \<le> 15 / 2"
    by (rule abs_leI)
  then show ?thesis
    by (rule to_float32_within)
qed

lemma jitteredI: "0 \<le> u \<Longrightarrow> u < 1 \<Longrightarrow> jittered base bound (to_float32 (base + u * bound))"
  by (auto simp: jittered_def)

lemma jittered_bounds:
  assumes "jittered base bound p" and b: "0 \<le> bound"
  shows "num_le (to_float32 base) p \<and> num_le p (to_float32 (base + bound))"
proof -
  from assms(1) obtain u where u: "0 \<le> u" "u < 1" and p: "p = to_float32 (base + u * bound)"
    by (auto simp: jittered_def)
  from u b have "0 \<le> u * bound" "u * bound \<le> bound"
    by (simp_all add: mult_left_le_one_le)
  then have "base \<le> base + u * bound" "base + u * bound \<le> base + bound"
    by simp_all
  then show ?thesis
    unfolding p by (intro conjI to_float32_mono)
qed

lemma particle_body_inv:
  assumes r: "unit_draws rand" and i: "i < n" and inv: "particles_inv c n i s"
  shows "particles_inv c n (Suc i) (particle_body i rand c s)"
proof -
  obtain positions colors k where s: "s = (positions, colors, k)"
    by (cases s) auto
  from inv s have lp: "length positions = n * 3" and lc: "length colors = n * 3"
    and ps: "\<forall>j < i * 3. in_cube (positions ! j)"
    and cs: "\<forall>j < i. colors ! (j * 3) = to_float32 (color_r c)
               \<and> jittered (color_g c) 0.2 (colors ! (j * 3 + 1))
               \<and> jittered (color_b c) 0.5 (colors ! (j * 3 + 2))"
    by (simp_all add: particles_inv_def)
  from r have u: "0 \<le> rand m" "rand m < 1" for m
    by (simp_all add: unit_draws_def)
  from i lp lc have in_p: "i * 3 + 2 < length positions" and in_c: "i * 3 + 2 < length colors"
    by simp_all
  let ?P = "positions[i * 3 := to_float32 ((rand k - 0.5) * 15),
                      i * 3 + 1 := to_float32 ((rand (k + 1) - 0.5) * 15),
                      i * 3 + 2 := to_float32 ((rand (k + 2) - 0.5) * 15)]"
  let ?C = "colors[i * 3 := to_float32 (color_r c),
                   i * 3 + 1 := to_float32 (color_g c + rand (k + 3) * 0.2),
                   i * 3 + 2 := to_float32 (color_b c + rand (k + 4) * 0.5)]"
  have body: "particle_body i rand c s = (?P, ?C, k + 5)"
    by (simp add: particle_body_def s Math_random_def eval_nat_numeral)
  have P: "in_cube (?P ! j)" if jl: "j < Suc i * 3" for j
  proof -
    consider "j < i * 3" | "j = i * 3" | "j = i * 3 + 1" | "j = i * 3 + 2"
      using jl by fastforce
    then show ?thesis
    proof cases
      case 1
      with ps show ?thesis by simp
    next
      case 2
      with in_p position_in_cube [OF u [of k]] show ?thesis by simp
    next
      case 3
      with in_p position_in_cube [OF u [of "k + 1"]] show ?thesis by simp
    next
      case 4
      with in_p position_in_cube [OF u [of "k + 2"]] show ?thesis by simp
    qed
  qed
  have C: "?C ! (j * 3) = to_float32 (color_r c)
           \<and> jittered (color_g c) 0.2 (?C ! (j * 3 + 1))
           \<and> jittered (color_b c) 0.5 (?C ! (j * 3 + 2))"
    if "j < Suc i" for j
  proof (cases "j = i")
    case True
    with in_c jitteredI [OF u [of "k + 3"], of "color_g c" "0.2"]
      jitteredI [OF u [of "k + 4"], of "color_b c" "0.5"]
    show ?thesis by simp
  next
    case False
    with that have "j < i" by simp
    with cs show ?thesis by simp
  qed
  from lp lc P C show ?thesis
    unfolding body particles_inv_def by simp
qed

lemma generateParticles_loop_step:
  "i < count \<Longrightarrow>
     generateParticles_loop i count rand c s
       = generateParticles_loop (Suc i) count rand c (particle_body i rand c s)"
  by (subst generateParticles_loop.simps) simp

lemma generateParticles_loop_done:
  "\<not> i < count \<Longrightarrow> generateParticles_loop i count rand c s = s"
  by (subst generateParticles_loop.simps) simp

lemma generateParticles_loop_inv:
  "unit_draws rand \<Longrightarrow> i \<le> n \<Longrightarrow> particles_inv c n i s \<Longrightarrow>
     particles_inv c n n (generateParticles_loop i n rand c s)"
proof (induction i n rand c s rule: generateParticles_loop.induct)
  case (1 i count rand colorObj s)
  show ?case
  proof (cases "i < count")
    case True
    with "1.prems" have "particles_inv colorObj count (Suc i) (particle_body i rand colorObj s)"
      by (intro particle_body_inv)
    with True "1.IH" "1.prems"(1) show ?thesis
      by (simp add: generateParticles_loop_step)
  next
    case False
    with "1.prems" have "i = count" by simp
    with "1.prems" show ?thesis by (simp add: generateParticles_loop_done)
  qed
qed

text \<open>
  C4, as the code has it. For every count \<open>N \<ge> 0\<close> and every source of draws in
  [0, 1), \<open>generateParticles\<close> returns (it does not throw) two arrays of \<open>3 * N\<close>
  numbers, \<open>N\<close> positions and \<open>N\<close> colours. Every position component is finite and
  lies in [-7.5, 7.5]. Every colour holds the single-precision value of the base red, of
  a green in [base, base + 0.2) and of a blue in [base, base + 0.5): the stored green
  lies between the stored base and the stored base + 0.2, the stored blue between the
  stored base and the stored base + 0.5.
\<close>

theorem generateParticles_counts_and_stored_bounds:
  assumes "\<forall>k. 0 \<le> rand k \<and> rand k < 1" and "0 \<le> N"
  shows "\<exists>positions colors.
           generateParticles N rand colorObj = Inr (positions, colors)
           \<and> length positions = nat N * 3 \<and> length colors = nat N * 3
           \<and> (\<forall>j < nat N * 3. \<exists>v. positions ! j = Fin v \<and> - 7.5 \<le> v \<and> v \<le> 7.5)
           \<and> (\<forall>i < nat N.
                  colors ! (i * 3) = to_float32 (color_r colorObj)
                  \<and> jittered (color_g colorObj) 0.2 (colors ! (i * 3 + 1))
                  \<and> num_le (to_float32 (color_g colorObj)) (colors ! (i * 3 + 1))
                  \<and> num_le (colors ! (i * 3 + 1)) (to_float32 (color_g colorObj + 0.2))
                  \<and> jittered (color_b colorObj) 0.5 (colors ! (i * 3 + 2))
                  \<and> num_le (to_float32 (color_b colorObj)) (colors ! (i * 3 + 2))
                  \<and> num_le (colors ! (i * 3 + 2)) (to_float32 (color_b colorObj + 0.5)))"
proof -
  let ?n = "nat N"
  let ?s0 = "(replicate (?n * 3) (Fin 0), replicate (?n * 3) (Fin 0), 0::nat)"
  obtain positions colors k where
    run: "generateParticles_loop 0 ?n rand colorObj ?s0 = (positions, colors, k)"
    by (cases "generateParticles_loop 0 ?n rand colorObj ?s0") auto
  from assms(1) have "unit_draws rand"
    by (simp add: unit_draws_def)
  moreover have "particles_inv colorObj ?n 0 ?s0"
    by (simp add: particles_inv_def)
  ultimately have "particles_inv colorObj ?n ?n (generateParticles_loop 0 ?n rand colorObj ?s0)"
    by (intro generateParticles_loop_inv) simp_all
  then have inv: "particles_inv colorObj ?n ?n (positions, colors, k)"
    by (simp only: run)
  from assms(2) have "nat (N * 3) = ?n * 3"
    by (simp add: nat_mult_distrib)
  with assms(2) run have ret: "generateParticles N rand colorObj = Inr (positions, colors)"
    by (simp add: generateParticles_def)
  from inv have len: "length positions = ?n * 3 \<and> length colors = ?n * 3"
    by (simp add: particles_inv_def)
  from inv have pos: "\<forall>j < ?n * 3. \<exists>v. positions ! j = Fin v \<and> - 7.5 \<le> v \<and> v \<le> 7.5"
    by (simp add: particles_inv_def in_cube_def)
  from inv have c: "\<forall>i < ?n. colors ! (i * 3) = to_float32 (color_r colorObj)
               \<and> jittered (color_g colorObj) 0.2 (colors ! (i * 3 + 1))
               \<and> jittered (color_b colorObj) 0.5 (colors ! (i * 3 + 2))"
    by (simp add: particles_inv_def)
  have col: "colors ! (i * 3) = to_float32 (color_r colorObj)
                  \<and> jittered (color_g colorObj) 0.2 (colors ! (i * 3 + 1))
                  \<and> num_le (to_float32 (color_g colorObj)) (colors ! (i * 3 + 1))
                  \<and> num_le (colors ! (i * 3 + 1)) (to_float32 (color_g colorObj + 0.2))
                  \<and> jittered (color_b colorObj) 0.5 (colors ! (i * 3 + 2))
                  \<and> num_le (to_float32 (color_b colorObj)) (colors ! (i * 3 + 2))
                  \<and> num_le (colors ! (i * 3 + 2)) (to_float32 (color_b colorObj + 0.5))"
    if "i < ?n" for i
  proof -
    from c that have r: "colors ! (i * 3) = to_float32 (color_r colorObj)"
      and g: "jittered (color_g colorObj) 0.2 (colors ! (i * 3 + 1))"
      and b: "jittered (color_b colorObj) 0.5 (colors ! (i * 3 + 2))"
      by blast+
    from jittered_bounds [OF g] jittered_bounds [OF b] r g b show ?thesis
      by simp
  qed
  from ret len pos col show ?thesis
    by blast
qed

lemma generateParticles_negative: "N < 0 \<Longrightarrow> generateParticles N rand colorObj = Inl RangeError"
  by (simp add: generateParticles_def)

text \<open>The result for one and for two particles, every store still to be rounded.\<close>

lemma generateParticles_one:
  "generateParticles 1 rand c =
     Inr ([to_float32 ((rand 0 - 0.5) * 15), to_float32 ((rand 1 - 0.5) * 15),
           to_float32 ((rand 2 - 0.5) * 15)],
          [to_float32 (color_r c), to_float32 (color_g c + rand 3 * 0.2),
           to_float32 (color_b c + rand 4 * 0.5)])"
  by (simp add: generateParticles_def generateParticles_loop_step generateParticles_loop_done
        particle_body_def Math_random_def eval_nat_numeral)

lemma generateParticles_two:
  "generateParticles 2 rand c =
     Inr ([to_float32 ((rand 0 - 0.5) * 15), to_float32 ((rand 1 - 0.5) * 15),
           to_float32 ((rand 2 - 0.5) * 15),
           to_float32 ((rand 5 - 0.5) * 15), to_float32 ((rand 6 - 0.5) * 15),
           to_float32 ((rand 7 - 0.5) * 15)],
          [to_float32 (color_r c), to_float32 (color_g c + rand 3 * 0.2),
           to_float32 (color_b c + rand 4 * 0.5),
           to_float32 (color_r c), to_float32 (color_g c + rand 8 * 0.2),
           to_float32 (color_b c + rand 9 * 0.5)])"
  by (simp add: generateParticles_def generateParticles_loop_step generateParticles_loop_done
        particle_body_def Math_random_def eval_nat_numeral)

text \<open>Rounding a given number: the binade is found among those listed.\<close>

lemmas float32_eval =
  to_float32_def float32_round_def round_half_even_def Let_def
  float32_ulp_char [where k = 0] float32_ulp_char [where k = 124]
  float32_ulp_char [where k = 125] float32_ulp_char [where k = 126]
  float32_ulp_char [where k = 127] float32_ulp_char [where k = 128]

lemma to_float32_examples:
  "to_float32 0 = Fin 0" "to_float32 1 = Fin 1" "to_float32 7.5 = Fin 7.5"
  "to_float32 1.2 = Fin (5033165 / 4194304)" "to_float32 0.75 = Fin 0.75"
  by (simp_all add: float32_eval)

text \<open>
  C4 as stated fails: with base green 1 and every draw \<open>1 - 2 ^ -30\<close>, the green
  channel computed is below 1.2 and the value stored is 5033165 / 4194304
  (1.2000000476837158), above base + 0.2. The position components are stored as 7.5.
\<close>

theorem generateParticles_green_above_bound:
  "unit_draws high_draws
   \<and> generateParticles 1 high_draws \<lparr>color_r = 0, color_g = 1, color_b = 0\<rparr>
       = Inr ([Fin 7.5, Fin 7.5, Fin 7.5], [Fin 0, Fin (5033165 / 4194304), Fin 0.5])
   \<and> \<not> num_le (Fin (5033165 / 4194304)) (Fin (1 + 0.2))
   \<and> \<not> spec_color_bound \<lparr>color_r = 0, color_g = 1, color_b = 0\<rparr>
          [Fin 0, Fin (5033165 / 4194304), Fin 0.5] 0"
proof -
  have "unit_draws high_draws"
    by (simp add: unit_draws_def high_draws_def)
  moreover have "generateParticles 1 high_draws \<lparr>color_r = 0, color_g = 1, color_b = 0\<rparr>
       = Inr ([Fin 7.5, Fin 7.5, Fin 7.5], [Fin 0, Fin (5033165 / 4194304), Fin 0.5])"
    unfolding generateParticles_one by (simp add: high_draws_def float32_eval)
  moreover have "\<not> num_le (Fin (5033165 / 4194304)) (Fin (1 + 0.2))"
    by simp
  moreover have "\<not> spec_color_bound \<lparr>color_r = 0, color_g = 1, color_b = 0\<rparr>
          [Fin 0, Fin (5033165 / 4194304), Fin 0.5] 0"
    by (simp add: spec_color_bound_def)
  ultimately show ?thesis
    by blast
qed

theorem generateParticles_counts_and_stored_bounds_witness:
  "unit_draws quarter_draws \<and> (0::int) \<le> 2
   \<and> generateParticles 2 quarter_draws \<lparr>color_r = 0, color_g = 1, color_b = 0.25\<rparr>
       = Inr ([Fin (- 7.5), Fin (- 3.75), Fin 0, Fin (- 3.75), Fin 0, Fin 3.75],
              [Fin 0, Fin (9646899 / 8388608), Fin 0.25, Fin 0, Fin 1, Fin 0.375])
   \<and> (\<exists>positions colors.
         generateParticles 2 quarter_draws \<lparr>color_r = 0, color_g = 1, color_b = 0.25\<rparr>
           = Inr (positions, colors)
         \<and> length positions = 6 \<and> length colors = 6
         \<and> (\<exists>v. positions ! 5 = Fin v \<and> - 7.5 \<le> v \<and> v \<le> 7.5)
         \<and> colors ! 3 = Fin 0
         \<and> num_le (Fin 1) (colors ! 4)
         \<and> num_le (colors ! 4) (Fin (5033165 / 4194304))
         \<and> num_le (colors ! 5) (Fin 0.75))"
proof -
  let ?c = "\<lparr>color_r = 0, color_g = 1, color_b = 0.25\<rparr>"
  have h1: "\<forall>k. 0 \<le> quarter_draws k \<and> quarter_draws k < 1"
    by (simp add: quarter_draws_def)
  have h2: "(0::int) \<le> 2"
    by simp
  have v: "generateParticles 2 quarter_draws ?c
       = Inr ([Fin (- 7.5), Fin (- 3.75), Fin 0, Fin (- 3.75), Fin 0, Fin 3.75],
              [Fin 0, Fin (9646899 / 8388608), Fin 0.25, Fin 0, Fin 1, Fin 0.375])"
    unfolding generateParticles_two by (simp add: quarter_draws_def float32_eval)
  from generateParticles_counts_and_stored_bounds [OF h1 h2, of ?c]
  obtain positions colors where
    r: "generateParticles 2 quarter_draws ?c = Inr (positions, colors)"
    and l: "length positions = nat 2 * 3" "length colors = nat 2 * 3"
    and ps: "\<forall>j < nat 2 * 3. \<exists>v. positions ! j = Fin v \<and> - 7.5 \<le> v \<and> v \<le> 7.5"
    and cs: "\<forall>i < nat 2.
                  colors ! (i * 3) = to_float32 (color_r ?c)
                  \<and> jittered (color_g ?c) 0.2 (colors ! (i * 3 + 1))
                  \<and> num_le (to_float32 (color_g ?c)) (colors ! (i * 3 + 1))
                  \<and> num_le (colors ! (i * 3 + 1)) (to_float32 (color_g ?c + 0.2))
                  \<and> jittered (color_b ?c) 0.5 (colors ! (i * 3 + 2))
                  \<and> num_le (to_float32 (color_b ?c)) (colors ! (i * 3 + 2))
                  \<and> num_le (colors ! (i * 3 + 2)) (to_float32 (color_b ?c + 0.5))"
    by blast
  have "(5::nat) < nat 2 * 3"
    by simp
  with ps have p5: "\<exists>v. positions ! 5 = Fin v \<and> - 7.5 \<le> v \<and> v \<le> 7.5"
    by blast
  have "(1::nat) < nat 2"
    by simp
  with cs have "colors ! (1 * 3) = to_float32 (color_r ?c)
      \<and> num_le (to_float32 (color_g ?c)) (colors ! (1 * 3 + 1))
      \<and> num_le (colors ! (1 * 3 + 1)) (to_float32 (color_g ?c + 0.2))
      \<and> num_le (colors ! (1 * 3 + 2)) (to_float32 (color_b ?c + 0.5))"
    by blast
  then have c: "colors ! 3 = Fin 0 \<and> num_le (Fin 1) (colors ! 4)
      \<and> num_le (colors ! 4) (Fin (5033165 / 4194304)) \<and> num_le (colors ! 5) (Fin 0.75)"
    using to_float32_examples by simp
  from r l p5 c have "\<exists>positions colors.
         generateParticles 2 quarter_draws ?c = Inr (positions, colors)
         \<and> length positions = 6 \<and> length colors = 6
         \<and> (\<exists>v. positions ! 5 = Fin v \<and> - 7.5 \<le> v \<and> v \<le> 7.5)
         \<and> colors ! 3 = Fin 0
         \<and> num_le (Fin 1) (colors ! 4)
         \<and> num_le (colors ! 4) (Fin (5033165 / 4194304))
         \<and> num_le (colors ! 5) (Fin 0.75)"
    by (intro exI [of _ positions] exI [of _ colors]) simp
  moreover from h1 have "unit_draws quarter_draws"
    by (simp add: unit_draws_def)
  ultimately show ?thesis
    using h2 v by blast
qed

section \<open>Properties of the frame callback\<close>

lemma smoothing_step_Fin:
  "smoothing_step (Fin r) (Fin t) = Fin (r + (t - r) * 0.05)"
  by (simp add: smoothing_step_def num_sub_def)

lemma useFrame_present:
  "Constellation_useFrame (Some p) time m =
     Inr (Some (p\<lparr>rotation_x := smoothing_step (num_mul (Fin time) (Fin 0.05))
                                   (num_mul (array_get m 1) (Fin 0.5)),
                 rotation_y := smoothing_step (num_mul (Fin time) (Fin 0.03))
                                   (num_mul (array_get m 0) (Fin 0.5))\<rparr>))"
  by (simp add: Constellation_useFrame_def deref_def Let_def)

lemma useFrame_finite:
  "Constellation_useFrame (Some p) time [Fin mx, Fin my] =
     Inr (Some (p\<lparr>rotation_x := Fin (time * 0.05 + (my * 0.5 - time * 0.05) * 0.05),
                 rotation_y := Fin (time * 0.03 + (mx * 0.5 - time * 0.03) * 0.05)\<rparr>))"
  by (simp add: useFrame_present array_get_def smoothing_step_Fin)

text \<open>
  C1, as the code has it. With the render target present, a frame first overwrites the
  rotation with the autonomous rotation (\<open>time * 0.05\<close> on x, \<open>time * 0.03\<close> on y) and
  then moves it by 0.05 of the distance toward the pointer's target offset alone
  (\<open>0.5 * mouse[1]\<close> for x, \<open>0.5 * mouse[0]\<close> for y): the step starts from the
  autonomous rotation of this frame, not from the rotation the previous frame left.
\<close>

theorem frame_rotation_smooths_from_autonomous:
  "Constellation_useFrame (Some p) time m =
     Inr (Some (p\<lparr>rotation_x := smoothing_step (num_mul (Fin time) (Fin 0.05))
                                   (num_mul (array_get m 1) (Fin 0.5)),
                 rotation_y := smoothing_step (num_mul (Fin time) (Fin 0.03))
                                   (num_mul (array_get m 0) (Fin 0.5))\<rparr>))
   \<and> Constellation_useFrame (Some p) time [Fin mx, Fin my] =
     Inr (Some (p\<lparr>rotation_x := Fin (time * 0.05 + (my * 0.5 - time * 0.05) * 0.05),
                 rotation_y := Fin (time * 0.03 + (mx * 0.5 - time * 0.03) * 0.05)\<rparr>))"
  using useFrame_present [of p time m] useFrame_finite [of p time mx my]
  by (rule conjI)

text \<open>
  C1 as stated fails: at time 10 with pointer state (1, 1) and a previous rotation of
  (2, 2), the frame leaves the rotation (0.5, 0.31), where the stated blend from the
  previous rotation would give (1.95, 1.94).
\<close>

theorem frame_rotation_not_blend_of_previous:
  "Constellation_useFrame
       (Some \<lparr>rotation_x = Fin 2, rotation_y = Fin 2, rotation_z = Fin 0\<rparr>) 10 [Fin 1, Fin 1]
     = Inr (Some \<lparr>rotation_x = Fin 0.5, rotation_y = Fin 0.31, rotation_z = Fin 0\<rparr>)
   \<and> spec_blend 2 (10 * 0.05) (1 * 0.5) = 1.95
   \<and> spec_blend 2 (10 * 0.03) (1 * 0.5) = 1.94
   \<and> Fin 0.5 \<noteq> Fin (spec_blend 2 (10 * 0.05) (1 * 0.5))
   \<and> Fin 0.31 \<noteq> Fin (spec_blend 2 (10 * 0.03) (1 * 0.5))"
  by (simp add: useFrame_finite spec_blend_def)

text \<open>
  C2, as the code has it. In every frame with the render target present the smoothing
  statement of lines 108-109 is applied to the rotation that lines 101-102 wrote in the
  same frame, the autonomous rotation \<open>a\<close> (\<open>time * 0.05\<close> on x, \<open>time * 0.03\<close> on
  y), and leaves \<open>a + (target - a) * 0.05\<close>, whatever the previous frame left. With
  target 1.0 (pointer state (2, 2)) a frame at time 0, where \<open>a = 0\<close>, leaves 0.05 on
  both axes, and a frame at time 1, where \<open>a = 0.05\<close> on x, leaves 0.0975 on x.
\<close>

theorem frame_smoothing_restarts_from_autonomous:
  "(\<exists>p'. Constellation_useFrame (Some p) time [Fin mx, Fin my] = Inr (Some p')
      \<and> rotation_x p' = smoothing_step (Fin (time * 0.05)) (Fin (my * 0.5))
      \<and> rotation_x p' = Fin (time * 0.05 + (my * 0.5 - time * 0.05) * 0.05)
      \<and> rotation_y p' = smoothing_step (Fin (time * 0.03)) (Fin (mx * 0.5))
      \<and> rotation_y p' = Fin (time * 0.03 + (mx * 0.5 - time * 0.03) * 0.05))
   \<and> Constellation_useFrame (Some p) 0 [Fin 2, Fin 2]
       = Inr (Some (p\<lparr>rotation_x := Fin 0.05, rotation_y := Fin 0.05\<rparr>))
   \<and> Constellation_useFrame (Some p) 1 [Fin 2, Fin 2]
       = Inr (Some (p\<lparr>rotation_x := Fin 0.0975, rotation_y := Fin 0.0785\<rparr>))"
proof -
  have a: "\<exists>p'. Constellation_useFrame (Some p) time [Fin mx, Fin my] = Inr (Some p')
      \<and> rotation_x p' = smoothing_step (Fin (time * 0.05)) (Fin (my * 0.5))
      \<and> rotation_x p' = Fin (time * 0.05 + (my * 0.5 - time * 0.05) * 0.05)
      \<and> rotation_y p' = smoothing_step (Fin (time * 0.03)) (Fin (mx * 0.5))
      \<and> rotation_y p' = Fin (time * 0.03 + (mx * 0.5 - time * 0.03) * 0.05)"
    by (simp add: useFrame_finite smoothing_step_Fin)
  have b: "Constellation_useFrame (Some p) 0 [Fin 2, Fin 2]
       = Inr (Some (p\<lparr>rotation_x := Fin 0.05, rotation_y := Fin 0.05\<rparr>))"
    by (simp add: useFrame_finite)
  have c: "Constellation_useFrame (Some p) 1 [Fin 2, Fin 2]
       = Inr (Some (p\<lparr>rotation_x := Fin 0.0975, rotation_y := Fin 0.0785\<rparr>))"
    by (simp add: useFrame_finite)
  from a b c show ?thesis
    by blast
qed

text \<open>
  C2 as stated fails: from rotation 0 with the target held at 1.0, the frame at time 0
  leaves 0.05, and the next frame, at time 1/60, leaves 1219/24000 on x, where the
  stated recurrence from the previous value 0.05 gives 0.0975.
\<close>

theorem frame_smoothing_not_chained:
  "Constellation_useFrame
       (Some \<lparr>rotation_x = Fin 0, rotation_y = Fin 0, rotation_z = Fin 0\<rparr>) 0 [Fin 2, Fin 2]
     = Inr (Some \<lparr>rotation_x = Fin 0.05, rotation_y = Fin 0.05, rotation_z = Fin 0\<rparr>)
   \<and> Constellation_useFrame
       (Some \<lparr>rotation_x = Fin 0.05, rotation_y = Fin 0.05, rotation_z = Fin 0\<rparr>) (1 / 60)
       [Fin 2, Fin 2]
     = Inr (Some \<lparr>rotation_x = Fin (1219 / 24000), rotation_y = Fin (2019 / 40000),
                  rotation_z = Fin 0\<rparr>)
   \<and> spec_smoothing 0.05 1 0.05 = 0.0975
   \<and> Fin (1219 / 24000) \<noteq> Fin (spec_smoothing 0.05 1 0.05)
   \<and> Fin (2019 / 40000) \<noteq> Fin (spec_smoothing 0.05 1 0.05)"
  by (simp add: useFrame_finite spec_smoothing_def)

text \<open>
  C7. A frame with the render target unset returns at once and leaves it unset, with no
  exception; a frame with the target present returns normally with a target, whatever
  the time and the pointer state (also a short array or one holding NaN).
\<close>

theorem frame_never_fails:
  "Constellation_useFrame None time m = Inr None
   \<and> (\<exists>p'. Constellation_useFrame (Some p) time m = Inr (Some p'))
   \<and> scene_step (s\<lparr>points := None\<rparr>) (Frame time) = s\<lparr>points := None\<rparr>"
  by (simp add: useFrame_present) (simp add: Constellation_useFrame_def)

text \<open>
  C9. Two frames at the same time with the same pointer state, from any two previous
  targets \<open>p\<close> and \<open>q\<close>, leave the same rotation on both animated axes; for a finite
  pointer state each axis is 0.95 times the autonomous rotation plus 0.05 times the
  pointer's target offset.
\<close>

theorem frame_rotation_independent_of_previous:
  "(\<exists>p' q'. Constellation_useFrame (Some p) time m = Inr (Some p')
        \<and> Constellation_useFrame (Some q) time m = Inr (Some q')
        \<and> rotation_x p' = rotation_x q' \<and> rotation_y p' = rotation_y q')
   \<and> Constellation_useFrame (Some p) time [Fin mx, Fin my] =
       Inr (Some (p\<lparr>rotation_x := Fin (0.95 * (time * 0.05) + 0.05 * (my * 0.5)),
                   rotation_y := Fin (0.95 * (time * 0.03) + 0.05 * (mx * 0.5))\<rparr>))"
proof -
  have e1: "time * 0.05 + (my * 0.5 - time * 0.05) * 0.05 = 0.95 * (time * 0.05) + 0.05 * (my * 0.5)"
    and e2: "time * 0.03 + (mx * 0.5 - time * 0.03) * 0.05 = 0.95 * (time * 0.03) + 0.05 * (mx * 0.5)"
    by (simp_all add: algebra_simps)
  have same: "\<exists>p' q'. Constellation_useFrame (Some p) time m = Inr (Some p')
        \<and> Constellation_useFrame (Some q) time m = Inr (Some q')
        \<and> rotation_x p' = rotation_x q' \<and> rotation_y p' = rotation_y q'"
    by (simp add: useFrame_present)
  have closed: "Constellation_useFrame (Some p) time [Fin mx, Fin my] =
       Inr (Some (p\<lparr>rotation_x := Fin (0.95 * (time * 0.05) + 0.05 * (my * 0.5)),
                   rotation_y := Fin (0.95 * (time * 0.03) + 0.05 * (mx * 0.5))\<rparr>))"
    unfolding e1 [symmetric] e2 [symmetric] by (rule useFrame_finite)
  from same closed show ?thesis
    by (rule conjI)
qed

section \<open>Properties of the pointer state\<close>

lemma handleMouseMove_Fin:
  "0 < w \<Longrightarrow> 0 < h \<Longrightarrow>
     handleMouseMove x y w h = [Fin (x / real w * 2 - 1), Fin (- (y / real h) * 2 + 1)]"
  by (simp add: handleMouseMove_def num_sub_def)

lemma handleMouseMove_empty_viewport:
  "handleMouseMove 0 0 0 0 = [NaN, NaN]"
  by (simp add: handleMouseMove_def num_sub_def signed_inf_def)

lemma unit_range_affine:
  "0 \<le> r \<Longrightarrow> r \<le> 1 \<Longrightarrow>
     in_unit_range (Fin (r * 2 - 1)) \<and> in_unit_range (Fin (- r * 2 + 1))"
  by simp

lemma pointer_state_ok_pair:
  "in_unit_range a \<Longrightarrow> in_unit_range b \<Longrightarrow> pointer_state_ok [a, b]"
  by (simp add: pointer_state_ok_def)

lemma handleMouseMove_ok:
  assumes "in_viewport (PointerMove x y w h)"
  shows "pointer_state_ok (handleMouseMove x y w h)"
proof -
  from assms have w: "0 < w" and h: "0 < h" and x: "0 \<le> x" "x \<le> real w" and y: "0 \<le> y" "y \<le> real h"
    by simp_all
  from w x have "0 \<le> x / real w" "x / real w \<le> 1"
    by (simp_all add: divide_le_eq_1)
  then have a: "in_unit_range (Fin (x / real w * 2 - 1))"
    by (rule unit_range_affine [THEN conjunct1])
  from h y have "0 \<le> y / real h" "y / real h \<le> 1"
    by (simp_all add: divide_le_eq_1)
  then have b: "in_unit_range (Fin (- (y / real h) * 2 + 1))"
    by (rule unit_range_affine [THEN conjunct2])
  from a b show ?thesis
    unfolding handleMouseMove_Fin [OF w h] by (rule pointer_state_ok_pair)
qed

lemma scene_step_ok:
  "in_viewport ev \<Longrightarrow> pointer_state_ok (mouse s) \<Longrightarrow> pointer_state_ok (mouse (scene_step s ev))"
proof (cases ev)
  case (PointerMove x y w h)
  assume "in_viewport ev"
  then show ?thesis
    using handleMouseMove_ok [of x y w h] by (simp add: PointerMove)
next
  case (Frame t)
  assume "pointer_state_ok (mouse s)"
  then show ?thesis
    by (simp add: Frame split: sum.splits)
qed simp_all

lemma foldl_scene_step_ok:
  "list_all in_viewport evs \<Longrightarrow> pointer_state_ok (mouse s) \<Longrightarrow>
     pointer_state_ok (mouse (foldl scene_step s evs))"
  by (induction evs arbitrary: s) (simp_all add: scene_step_ok)

lemma list_all_take: "list_all P xs \<Longrightarrow> list_all P (take n xs)"
  by (auto simp: list_all_iff dest: in_set_takeD)

text \<open>
  C5 as stated fails: in an empty viewport (\<open>innerWidth = innerHeight = 0\<close>) the
  pointer move at (0, 0) has its coordinates in [0, width] x [0, height], and the
  handler writes (NaN, NaN).
\<close>

theorem pointer_state_nan_in_empty_viewport:
  "in_extent (PointerMove 0 0 0 0)
   \<and> mouse (scene_run [PointerMove 0 0 0 0]) = [NaN, NaN]
   \<and> \<not> pointer_state_ok (mouse (scene_run [PointerMove 0 0 0 0]))"
  by (simp add: scene_run_def handleMouseMove_empty_viewport pointer_state_ok_def)

text \<open>
  C5, as the code has it. The pointer state starts as (0, 0); after every prefix of a
  sequence of events in which each pointer move lies in a viewport of positive width and
  height, \<open>0 \<le> clientX \<le> innerWidth\<close> and \<open>0 \<le> clientY \<le> innerHeight\<close>, it has
  two components, each finite and in [-1, 1]. Frames, and the renderer attaching or
  detaching the target, do not change it, so every frame reads such a vector.
\<close>

theorem pointer_state_in_range:
  assumes "list_all in_viewport evs"
  shows "mouse (scene_run []) = [Fin 0, Fin 0]
         \<and> (\<forall>n. pointer_state_ok (mouse (scene_run (take n evs))))
         \<and> mouse (scene_step (scene_run evs) (Frame time)) = mouse (scene_run evs)"
proof -
  have init: "pointer_state_ok (mouse scene_init)"
    by (simp add: scene_init_def mouse_init_def pointer_state_ok_def)
  have "pointer_state_ok (mouse (scene_run (take n evs)))" for n
    unfolding scene_run_def
    using list_all_take [OF assms, of n] init by (rule foldl_scene_step_ok)
  moreover have "mouse (scene_step (scene_run evs) (Frame time)) = mouse (scene_run evs)"
    by (simp split: sum.splits)
  ultimately show ?thesis
    by (simp add: scene_run_def scene_init_def mouse_init_def)
qed

theorem pointer_state_in_range_witness:
  "list_all in_viewport
     [PointerMove 0 0 800 600, Frame 1,
      Attach \<lparr>rotation_x = Fin 0, rotation_y = Fin 0, rotation_z = Fin 0\<rparr>,
      PointerMove 800 600 800 600, Frame 2]
   \<and> mouse (scene_run
       [PointerMove 0 0 800 600, Frame 1,
        Attach \<lparr>rotation_x = Fin 0, rotation_y = Fin 0, rotation_z = Fin 0\<rparr>,
        PointerMove 800 600 800 600, Frame 2]) = [Fin 1, Fin (- 1)]
   \<and> pointer_state_ok (mouse (scene_run
       [PointerMove 0 0 800 600, Frame 1,
        Attach \<lparr>rotation_x = Fin 0, rotation_y = Fin 0, rotation_z = Fin 0\<rparr>,
        PointerMove 800 600 800 600, Frame 2]))"
proof -
  let ?evs = "[PointerMove 0 0 800 600, Frame 1,
      Attach \<lparr>rotation_x = Fin 0, rotation_y = Fin 0, rotation_z = Fin 0\<rparr>,
      PointerMove 800 600 800 600, Frame 2]"
  have h: "list_all in_viewport ?evs"
    by simp
  have v: "mouse (scene_run ?evs) = [Fin 1, Fin (- 1)]"
    by (simp add: scene_run_def scene_init_def mouse_init_def useFrame_present
                  handleMouseMove_def num_sub_def)
  from pointer_state_in_range [OF h, of 0]
  have "pointer_state_ok (mouse (scene_run (take 5 ?evs)))"
    by blast
  with h v show ?thesis
    by simp
qed



end
